theory Spec2Isabelle
  imports Complex_Main "HOL-Library.Sublist" "HOL-Library.Word"
begin

section \<open>Data model\<close>

text \<open>
  The tables the secure-print handler reads and writes, as the handler sees them:
  \<open>document_access\<close> (the access grants), \<open>documents\<close> (joined to a grant through
  \<open>document_id\<close>) and \<open>print_logs\<close> (append only). Row identifiers are opaque, here
  natural numbers; \<open>expires_at\<close> and every clock reading are instants on one integer
  time line; \<open>remaining_prints\<close> is an integer column.
\<close>

type_synonym bytes = "8 word list"
type_synonym instant = int

record document_row =
  doc_id :: nat
  storage_path :: string

record access_row =
  access_id :: nat
  user_id :: nat
  document_id :: nat
  session_token :: string
  remaining_prints :: int
  expires_at :: instant
  watermark_text :: "string option"

record print_log =
  log_document_id :: nat
  log_user_id :: nat
  log_session_token :: string
  log_ip_address :: string
  log_user_agent :: string

record database =
  document_access :: "access_row list"
  documents :: "document_row list"
  print_logs :: "print_log list"

subsection \<open>HTTP messages\<close>

datatype json = JString string | JNumber int

datatype body = No_body | Json_body "(string \<times> json) list" | Bytes_body bytes

record response =
  status :: nat
  headers :: "(string \<times> string) list"
  body :: body

text \<open>
  The parsed request body: \<open>req.json()\<close> throws on a body that is not JSON, and the
  destructured \<open>session_token\<close> is absent or a string. Request header names are
  kept in lower case, as \<open>Headers.get\<close> compares them.
\<close>

datatype request_json = Invalid_json | Json_object "string option"

record request =
  req_method :: string
  req_headers :: "(string \<times> string) list"
  req_json :: request_json

subsection \<open>Paged documents\<close>

text \<open>
  What the handler uses of pdf-lib: a loaded document is its list of pages, a page has a
  size and a content stream, and \<open>drawText\<close> appends one text operation to the content
  stream of the page it is called on. Lengths, opacities and colour components are
  rational numbers (the arithmetic of the source is taken exact).
\<close>

datatype rgb = RGB rat rat rat

record text_options =
  opt_x :: rat
  opt_y :: rat
  opt_size :: rat
  opt_rotate :: "rat option"
  opt_opacity :: rat
  opt_color :: rgb

datatype content_op = Original bytes | Draw_text string text_options

record pdf_page =
  page_width :: rat
  page_height :: rat
  page_content :: "content_op list"

type_synonym pdf_document = "pdf_page list"

subsection \<open>The collaborators of one request\<close>

text \<open>
  Everything outside the handler that one execution of it consults: the environment
  variables, the outcome of each database call, the storage bucket, the two delegate
  services behind \<open>fetch\<close>, pdf-lib's parser and serialiser, and the two clock
  readings (\<open>new Date()\<close> in the access query and in the watermark).
\<close>

datatype fetch_body = Form_file string string string string | Raw_body bytes

datatype fetch_result = Network_error | Http_response nat "bytes option"

record world =
  env_SVG_TO_PDF_URL :: "string option"
  env_PDF_ENHANCE_URL :: "string option"
  env_PDF_ENHANCE_API_KEY :: "string option"
  env_PDF_ENHANCE_AUTH_HEADER_NAME :: "string option"
  select_error :: bool
  now_query :: instant
  storage_download :: "string \<Rightarrow> bytes option"
  update_error :: bool
  insert_error :: bool
  blob_text :: "bytes \<Rightarrow> string"
  fetch :: "string \<Rightarrow> (string \<times> string) list \<Rightarrow> fetch_body \<Rightarrow> fetch_result"
  pdf_load :: "bytes \<Rightarrow> pdf_document option"
  text_encodable :: "string \<Rightarrow> bool"
  pdf_save :: "pdf_document \<Rightarrow> bytes"
  now_watermark :: instant
  toISOString :: "instant \<Rightarrow> string"

section \<open>Helpers of the JavaScript runtime\<close>

text \<open>A string operand of \<open>||\<close> and \<open>!\<close>: absent and empty are falsy.\<close>

definition or_else :: "string option \<Rightarrow> string \<Rightarrow> string" where
  "or_else v d = (case v of None \<Rightarrow> d | Some s \<Rightarrow> if s = [] then d else s)"

definition header_get :: "request \<Rightarrow> string \<Rightarrow> string option" where
  "header_get req name = map_of (req_headers req) name"

text \<open>\<open>Response.ok\<close>: the status is in the range 200 to 299.\<close>

definition ok :: "nat \<Rightarrow> bool" where
  "ok st = (200 \<le> st \<and> st \<le> 299)"

text \<open>
  \<open>toLowerCase\<close> on the letters A to Z; no other character becomes one of the
  characters of the suffix \<open>.svg\<close> that the handler tests for.
\<close>

definition lower_char :: "char \<Rightarrow> char" where
  "lower_char c =
     (case map_of (zip ''ABCDEFGHIJKLMNOPQRSTUVWXYZ'' ''abcdefghijklmnopqrstuvwxyz'') c of
        Some l \<Rightarrow> l
      | None \<Rightarrow> c)"

definition toLowerCase :: "string \<Rightarrow> string" where
  "toLowerCase s = map lower_char s"

definition endsWith :: "string \<Rightarrow> string \<Rightarrow> bool" where
  "endsWith s suf = (length suf \<le> length s \<and> drop (length s - length suf) s = suf)"

text \<open>\<open>Number.prototype.toString\<close> on an integer: its decimal digits, with a sign.\<close>

fun digits :: "nat \<Rightarrow> string" where
  "digits n =
     (if n < 10 then [''0123456789'' ! n]
      else digits (n div 10) @ [''0123456789'' ! (n mod 10)])"

declare digits.simps [simp del]

definition toString :: "int \<Rightarrow> string" where
  "toString i = (if i < 0 then CHR ''-'' # digits (nat (- i)) else digits (nat i))"

text \<open>Assignment \<open>headers[name] = value\<close> on an object: replace in place, or append.\<close>

fun assign :: "string \<Rightarrow> string \<Rightarrow> (string \<times> string) list \<Rightarrow> (string \<times> string) list" where
  "assign k v [] = [(k, v)]"
| "assign k v ((k', v') # kvs) =
     (if k' = k then (k, v) # kvs else (k', v') # assign k v kvs)"

section \<open>The secure-print handler\<close>

definition corsHeaders :: "(string \<times> string) list" where
  "corsHeaders =
     [(''Access-Control-Allow-Origin'', ''*''),
      (''Access-Control-Allow-Headers'',
       ''authorization, x-client-info, apikey, content-type'')]"

definition json_response :: "nat \<Rightarrow> (string \<times> json) list \<Rightarrow> response" where
  "json_response st obj =
     \<lparr>status = st,
      headers = corsHeaders @ [(''Content-Type'', ''application/json'')],
      body = Json_body obj\<rparr>"

definition token_required :: response where
  "token_required = json_response 400 [(''error'', JString ''Session token required'')]"

definition invalid_or_expired :: response where
  "invalid_or_expired = json_response 403 [(''error'', JString ''Invalid or expired session'')]"

definition print_limit_exceeded :: response where
  "print_limit_exceeded =
     json_response 403
       [(''error'', JString ''Print limit exceeded''), (''remaining_prints'', JNumber 0)]"

definition document_not_found :: response where
  "document_not_found = json_response 404 [(''error'', JString ''Document not found'')]"

definition retrieve_failed :: response where
  "retrieve_failed = json_response 500 [(''error'', JString ''Failed to retrieve document'')]"

definition process_failed :: response where
  "process_failed = json_response 500 [(''error'', JString ''Failed to process print request'')]"

definition convert_failed :: response where
  "convert_failed =
     json_response 500 [(''error'', JString ''Failed to convert SVG document for printing'')]"

definition internal_error :: response where
  "internal_error = json_response 500 [(''error'', JString ''Internal server error'')]"

definition preflight :: response where
  "preflight = \<lparr>status = 200, headers = corsHeaders, body = No_body\<rparr>"

definition pdf_response :: "bytes \<Rightarrow> int \<Rightarrow> response" where
  "pdf_response bs newRemainingPrints =
     \<lparr>status = 200,
      headers = corsHeaders @
        [(''Content-Type'', ''application/pdf''),
         (''Content-Disposition'', ''inline''),
         (''Cache-Control'', ''no-store, no-cache, must-revalidate, private''),
         (''Pragma'', ''no-cache''),
         (''Expires'', ''0''),
         (''X-Download-Options'', ''noopen''),
         (''X-Content-Type-Options'', ''nosniff''),
         (''X-Remaining-Prints'', toString newRemainingPrints)],
      body = Bytes_body bs\<rparr>"

subsection \<open>The access query\<close>

text \<open>
  \<open>select ... eq(session_token) gt(expires_at, now) maybeSingle()\<close>: the rows of the
  grant table with the token whose expiry is after the clock reading. \<open>maybeSingle\<close>
  gives no row for none, the row for one, and an error for more; the call can also
  fail as a whole.
\<close>

datatype 'a query_result = Query_error | No_row | One_row 'a

definition select_access :: "world \<Rightarrow> database \<Rightarrow> string \<Rightarrow> access_row query_result" where
  "select_access w db t =
     (if select_error w then Query_error
      else case filter (\<lambda>r. session_token r = t \<and> now_query w < expires_at r)
                  (document_access db) of
             [] \<Rightarrow> No_row
           | [r] \<Rightarrow> One_row r
           | _ \<Rightarrow> Query_error)"

text \<open>The embedded \<open>documents (*)\<close>: the document the grant refers to, or null.\<close>

definition joined_document :: "database \<Rightarrow> access_row \<Rightarrow> document_row option" where
  "joined_document db a = find (\<lambda>d. doc_id d = document_id a) (documents db)"

subsection \<open>Stages\<close>

text \<open>The calls a request makes, in the order it makes them.\<close>

datatype stage =
  Validate | Fetch | Decrement | Audit | Normalize | Enhance | Watermark | Deliver

text \<open>
  The local variables of a request between the download of the file and the update of
  the counter: what the first half of the handler has read.
\<close>

record snapshot =
  snap_token :: string
  snap_user_agent :: string
  snap_ip_address :: string
  snap_access :: access_row
  snap_document :: document_row
  snap_file :: bytes

text \<open>
  The first half of the handler, from the parsing of the body to the download: it only
  reads. It ends the request with a response, or continues with a snapshot.
\<close>

definition authorize ::
  "world \<Rightarrow> database \<Rightarrow> request \<Rightarrow> (response + snapshot) \<times> stage list" where
  "authorize w db req =
     (case req_json req of
        Invalid_json \<Rightarrow> (Inl internal_error, [])
      | Json_object None \<Rightarrow> (Inl token_required, [])
      | Json_object (Some token) \<Rightarrow>
          let userAgent = or_else (header_get req ''user-agent'') ''unknown'';
              ipAddress = or_else (header_get req ''x-forwarded-for'')
                            (or_else (header_get req ''cf-connecting-ip'') ''unknown'')
          in if token = [] then (Inl token_required, [])
             else (case select_access w db token of
                Query_error \<Rightarrow> (Inl invalid_or_expired, [Validate])
              | No_row \<Rightarrow> (Inl invalid_or_expired, [Validate])
              | One_row access \<Rightarrow>
                  if remaining_prints access \<le> 0
                  then (Inl print_limit_exceeded, [Validate])
                  else (case joined_document db access of
                     None \<Rightarrow> (Inl document_not_found, [Validate])
                   | Some document \<Rightarrow>
                       (case storage_download w (storage_path document) of
                          None \<Rightarrow> (Inl retrieve_failed, [Validate, Fetch])
                        | Some fileData \<Rightarrow>
                            (Inr \<lparr>snap_token = token,
                                  snap_user_agent = userAgent,
                                  snap_ip_address = ipAddress,
                                  snap_access = access,
                                  snap_document = document,
                                  snap_file = fileData\<rparr>,
                             [Validate, Fetch])))))"

text \<open>
  \<open>update({remaining_prints: n}).eq('id', i)\<close>: every row with the identifier gets
  the value; a call that reports an error has changed nothing.
\<close>

definition set_remaining :: "database \<Rightarrow> nat \<Rightarrow> int \<Rightarrow> database" where
  "set_remaining db i n =
     db\<lparr>document_access :=
          map (\<lambda>r. if access_id r = i then r\<lparr>remaining_prints := n\<rparr> else r)
            (document_access db)\<rparr>"

definition update_remaining :: "world \<Rightarrow> database \<Rightarrow> nat \<Rightarrow> int \<Rightarrow> database option" where
  "update_remaining w db i n =
     (if update_error w then None else Some (set_remaining db i n))"

text \<open>The insert into \<open>print_logs\<close>; its error is logged and otherwise ignored.\<close>

definition insert_print_log :: "world \<Rightarrow> database \<Rightarrow> print_log \<Rightarrow> database" where
  "insert_print_log w db e =
     (if insert_error w then db else db\<lparr>print_logs := print_logs db @ [e]\<rparr>)"

definition svgToPdfUrl :: "world \<Rightarrow> string" where
  "svgToPdfUrl w =
     (case env_SVG_TO_PDF_URL w of
        None \<Rightarrow> ''https://srveddfqmiwqetltbpln.supabase.co/functions/v1/svg-to-pdf''
      | Some u \<Rightarrow> u)"

text \<open>
  Conversion of an SVG source by the delegate service; a source that is not SVG passes
  through. A response that is not ok ends the request with status 500; a \<open>fetch\<close> or
  a body read that throws reaches the handler's \<open>catch\<close>.
\<close>

definition normalize :: "world \<Rightarrow> document_row \<Rightarrow> bytes \<Rightarrow> response + bytes" where
  "normalize w document fileData =
     (if endsWith (toLowerCase (storage_path document)) ''.svg''
      then (case fetch w (svgToPdfUrl w) []
                   (Form_file ''file'' ''input.svg'' ''image/svg+xml'' (blob_text w fileData)) of
              Network_error \<Rightarrow> Inl internal_error
            | Http_response st b \<Rightarrow>
                if \<not> ok st then Inl convert_failed
                else (case b of None \<Rightarrow> Inl internal_error | Some buf \<Rightarrow> Inr buf))
      else Inr fileData)"

text \<open>
  The optional enhancement call, inside its own \<open>try\<close>: the buffer is replaced only by
  a non-empty body of an ok response.
\<close>

definition enhance_headers :: "world \<Rightarrow> (string \<times> string) list" where
  "enhance_headers w =
     (let enhanceAuthHeaderName = or_else (env_PDF_ENHANCE_AUTH_HEADER_NAME w) ''Authorization'';
          headers = [(''Content-Type'', ''application/pdf'')]
      in case env_PDF_ENHANCE_API_KEY w of
           None \<Rightarrow> headers
         | Some enhanceApiKey \<Rightarrow>
             if enhanceApiKey = [] then headers
             else assign enhanceAuthHeaderName enhanceApiKey headers)"

definition enhance :: "world \<Rightarrow> bytes \<Rightarrow> bytes" where
  "enhance w originalPdfBuffer =
     (case env_PDF_ENHANCE_URL w of
        None \<Rightarrow> originalPdfBuffer
      | Some enhanceUrl \<Rightarrow>
          if enhanceUrl = [] then originalPdfBuffer
          else (case fetch w enhanceUrl (enhance_headers w) (Raw_body originalPdfBuffer) of
                  Network_error \<Rightarrow> originalPdfBuffer
                | Http_response st b \<Rightarrow>
                    if ok st
                    then (case b of
                            None \<Rightarrow> originalPdfBuffer
                          | Some enhancedBuffer \<Rightarrow>
                              if 0 < length enhancedBuffer then enhancedBuffer
                              else originalPdfBuffer)
                    else originalPdfBuffer))"

subsection \<open>Watermarking\<close>

text \<open>
  \<open>page.drawText\<close>: one more text operation at the end of the page's content; it
  throws on a text the page's font cannot encode.
\<close>

definition drawText :: "world \<Rightarrow> string \<Rightarrow> text_options \<Rightarrow> pdf_page \<Rightarrow> pdf_page option" where
  "drawText w txt opts page =
     (if text_encodable w txt
      then Some (page\<lparr>page_content := page_content page @ [Draw_text txt opts]\<rparr>)
      else None)"

definition diagonal_options :: "pdf_page \<Rightarrow> text_options" where
  "diagonal_options page =
     \<lparr>opt_x = page_width page * (15 / 100),
      opt_y = page_height page * (5 / 10),
      opt_size = 18,
      opt_rotate = Some (- 30),
      opt_opacity = 25 / 100,
      opt_color = RGB (5 / 10) (5 / 10) (5 / 10)\<rparr>"

definition footer_options :: "pdf_page \<Rightarrow> text_options" where
  "footer_options page =
     \<lparr>opt_x = page_width page * (1 / 10),
      opt_y = 24,
      opt_size = 10,
      opt_rotate = None,
      opt_opacity = 7 / 10,
      opt_color = RGB (4 / 10) (4 / 10) (4 / 10)\<rparr>"

definition watermarkText :: "world \<Rightarrow> access_row \<Rightarrow> string \<Rightarrow> string" where
  "watermarkText w access token =
     or_else (watermark_text access) ''Licensed Print'' @ '' - '' @
     toISOString w (now_watermark w) @ '' - ID: '' @ token"

definition footerText :: "string \<Rightarrow> int \<Rightarrow> string" where
  "footerText token newRemainingPrints =
     ''Secure Print | Session: '' @ token @ '' | Remaining: '' @ toString newRemainingPrints"

text \<open>The loop over the pages: two texts on each page, in document order.\<close>

fun watermark_pages :: "world \<Rightarrow> string \<Rightarrow> string \<Rightarrow> pdf_page list \<Rightarrow> pdf_page list option" where
  "watermark_pages w mark footer [] = Some []"
| "watermark_pages w mark footer (page # pages) =
     (case drawText w mark (diagonal_options page) page of
        None \<Rightarrow> None
      | Some page1 \<Rightarrow>
          (case drawText w footer (footer_options page) page1 of
             None \<Rightarrow> None
           | Some page2 \<Rightarrow>
               (case watermark_pages w mark footer pages of
                  None \<Rightarrow> None
                | Some rest \<Rightarrow> Some (page2 # rest))))"

subsection \<open>The second half of the handler\<close>

record outcome =
  reply :: response
  store :: database
  trace :: "stage list"

definition print_log_of :: "snapshot \<Rightarrow> print_log" where
  "print_log_of s =
     \<lparr>log_document_id = doc_id (snap_document s),
      log_user_id = user_id (snap_access s),
      log_session_token = snap_token s,
      log_ip_address = snap_ip_address s,
      log_user_agent = snap_user_agent s\<rparr>"

text \<open>
  From the update of the counter to the response: the counter is written from the value
  read in the first half, then the log entry, the conversion, the enhancement, the
  watermark and the delivery.
\<close>

definition consume_and_deliver :: "world \<Rightarrow> database \<Rightarrow> snapshot \<Rightarrow> outcome" where
  "consume_and_deliver w db s =
     (let access = snap_access s;
          newRemainingPrints = remaining_prints access - 1
      in case update_remaining w db (access_id access) newRemainingPrints of
           None \<Rightarrow> \<lparr>reply = process_failed, store = db, trace = [Decrement]\<rparr>
         | Some db1 \<Rightarrow>
             let db2 = insert_print_log w db1 (print_log_of s)
             in (case normalize w (snap_document s) (snap_file s) of
                   Inl r \<Rightarrow> \<lparr>reply = r, store = db2, trace = [Decrement, Audit, Normalize]\<rparr>
                 | Inr originalPdfBuffer \<Rightarrow>
                     (case pdf_load w (enhance w originalPdfBuffer) of
                        None \<Rightarrow>
                          \<lparr>reply = internal_error, store = db2,
                           trace = [Decrement, Audit, Normalize, Enhance, Watermark]\<rparr>
                      | Some pages \<Rightarrow>
                          (case watermark_pages w
                                  (watermarkText w access (snap_token s))
                                  (footerText (snap_token s) newRemainingPrints) pages of
                             None \<Rightarrow>
                               \<lparr>reply = internal_error, store = db2,
                                trace = [Decrement, Audit, Normalize, Enhance, Watermark]\<rparr>
                           | Some stamped \<Rightarrow>
                               \<lparr>reply = pdf_response (pdf_save w stamped) newRemainingPrints,
                                store = db2,
                                trace = [Decrement, Audit, Normalize, Enhance, Watermark,
                                         Deliver]\<rparr>))))"

subsection \<open>The handler\<close>

definition secure_print :: "world \<Rightarrow> database \<Rightarrow> request \<Rightarrow> outcome" where
  "secure_print w db req =
     (if req_method req = ''OPTIONS''
      then \<lparr>reply = preflight, store = db, trace = []\<rparr>
      else (case authorize w db req of
              (Inl r, tr) \<Rightarrow> \<lparr>reply = r, store = db, trace = tr\<rparr>
            | (Inr s, tr) \<Rightarrow>
                (let out = consume_and_deliver w db s
                 in out\<lparr>trace := tr @ trace out\<rparr>)))"

section \<open>Requests in sequence and interleaved\<close>

text \<open>
  Requests served one after another: each runs the whole handler on the database the
  previous one left.
\<close>

fun serve_all :: "database \<Rightarrow> (world \<times> request) list \<Rightarrow> response list \<times> database" where
  "serve_all db [] = ([], db)"
| "serve_all db ((w, req) # rest) =
     (let out = secure_print w db req;
          (rs, db') = serve_all (store out) rest
      in (reply out # rs, db'))"

text \<open>
  Requests served concurrently. The handler awaits the access query and, later, the
  update of the counter; between the two another request can run. A request in flight
  has either just arrived, or holds the snapshot its first half has read, or has
  replied. One step of the scheduler runs one half of one request on the shared
  database.
\<close>

datatype task = Arrived world request | Holding world snapshot | Replied response

definition advance :: "database \<Rightarrow> task \<Rightarrow> database \<times> task" where
  "advance db t =
     (case t of
        Arrived w req \<Rightarrow>
          if req_method req = ''OPTIONS'' then (db, Replied preflight)
          else (case fst (authorize w db req) of
                  Inl r \<Rightarrow> (db, Replied r)
                | Inr s \<Rightarrow> (db, Holding w s))
      | Holding w s \<Rightarrow>
          (let out = consume_and_deliver w db s in (store out, Replied (reply out)))
      | Replied r \<Rightarrow> (db, Replied r))"

fun run_schedule :: "nat list \<Rightarrow> database \<Rightarrow> task list \<Rightarrow> database \<times> task list" where
  "run_schedule [] db ts = (db, ts)"
| "run_schedule (i # sched) db ts =
     (if i < length ts
      then (let (db', t') = advance db (ts ! i) in run_schedule sched db' (ts[i := t']))
      else run_schedule sched db ts)"

fun replies :: "task list \<Rightarrow> response list" where
  "replies [] = []"
| "replies (Replied r # ts) = r # replies ts"
| "replies (_ # ts) = replies ts"

subsection \<open>Properties of responses and runs\<close>

text \<open>A delivered print: status 200 with the document bytes as the body.\<close>

definition delivered :: "response \<Rightarrow> bool" where
  "delivered r = (case body r of Bytes_body bs \<Rightarrow> status r = 200 | _ \<Rightarrow> False)"

text \<open>Of a list of responses, exactly one is a delivered print and the others are the
  quota rejection.\<close>

definition one_print_rest_rejected :: "response list \<Rightarrow> bool" where
  "one_print_rest_rejected rs =
     (length (filter delivered rs) = 1 \<and>
      filter (\<lambda>r. \<not> delivered r) rs =
        replicate (length rs - 1) print_limit_exceeded)"

text \<open>
  One grant before and after a request: the same row but for the counter, which has not
  grown and has dropped by one at most.
\<close>

definition counter_step :: "access_row \<Rightarrow> access_row \<Rightarrow> bool" where
  "counter_step r r' =
     (r' = r\<lparr>remaining_prints := remaining_prints r'\<rparr> \<and>
      remaining_prints r' \<le> remaining_prints r \<and>
      remaining_prints r - 1 \<le> remaining_prints r')"

text \<open>The stage \<open>a\<close> occurs in a trace, and \<open>b\<close> occurs after its first occurrence.\<close>

fun precedes :: "stage \<Rightarrow> stage \<Rightarrow> stage list \<Rightarrow> bool" where
  "precedes a b [] = False"
| "precedes a b (x # xs) = (if x = a then b \<in> set xs else precedes a b xs)"

definition handler_order :: "stage list" where
  "handler_order = [Validate, Fetch, Decrement, Audit, Normalize, Enhance, Watermark, Deliver]"

text \<open>The remaining-use header of a response.\<close>

definition remaining_header :: "response \<Rightarrow> string option" where
  "remaining_header r = map_of (headers r) ''X-Remaining-Prints''"


text \<open>
  The collaborators of a request for the grant \<open>a\<close> all succeed: the query, the
  download, the update, the conversion, the parser and the font.
\<close>

definition collaborators_succeed :: "world \<Rightarrow> database \<Rightarrow> access_row \<Rightarrow> bool" where
  "collaborators_succeed w db a =
     (\<not> select_error w \<and> \<not> update_error w \<and>
      (case joined_document db a of
         None \<Rightarrow> False
       | Some d \<Rightarrow>
           (case storage_download w (storage_path d) of
              None \<Rightarrow> False
            | Some fileData \<Rightarrow>
                (case normalize w d fileData of
                   Inl r \<Rightarrow> False
                 | Inr buf \<Rightarrow> pdf_load w (enhance w buf) \<noteq> None))) \<and>
      (\<forall>t. text_encodable w t))"

text \<open>What the loop leaves on a page: the page, with the two texts after its content.\<close>

definition stamped_page :: "string \<Rightarrow> string \<Rightarrow> pdf_page \<Rightarrow> pdf_page" where
  "stamped_page mark footer page =
     page\<lparr>page_content := page_content page @
            [Draw_text mark (diagonal_options page), Draw_text footer (footer_options page)]\<rparr>"

definition same_size :: "pdf_page \<Rightarrow> pdf_page \<Rightarrow> bool" where
  "same_size p q = (page_width q = page_width p \<and> page_height q = page_height p)"

section \<open>The SVG-to-PDF service\<close>

text \<open>
  The text of the uploaded file is a JavaScript string: a list of 16-bit code units.
  \<open>js\<close> writes one from its ASCII characters.
\<close>

type_synonym code_unit = "16 word"
type_synonym js_string = "code_unit list"

definition js :: "string \<Rightarrow> js_string" where
  "js s = map of_char s"




definition dquote :: code_unit where
  "dquote = 0x22"

definition equals_sign :: code_unit where
  "equals_sign = 0x3D"

text \<open>
  The class \<open>\s\<close>, which is also what \<open>trim\<close> removes: tab, line feed, vertical
  tab, form feed, carriage return, space, no-break space, U+1680, U+2000 to U+200A,
  the line and paragraph separators, U+202F, U+205F, U+3000 and U+FEFF.
\<close>

definition is_space :: "code_unit \<Rightarrow> bool" where
  "is_space u =
     (u \<in> {0x09, 0x0A, 0x0B, 0x0C, 0x0D, 0x20, 0xA0, 0x1680, 0x2028, 0x2029, 0x202F,
            0x205F, 0x3000, 0xFEFF} \<or>
      (0x2000 \<le> u \<and> u \<le> 0x200A))"

text \<open>
  Comparison under the flag \<open>i\<close> with the letters of the pattern: the letters A to Z
  equal their lower-case forms, and no code unit from 128 on equals an ASCII letter.
\<close>

definition fold_case :: "code_unit \<Rightarrow> code_unit" where
  "fold_case u = (if 0x41 \<le> u \<and> u \<le> 0x5A then u + 0x20 else u)"

text \<open>
  The regular expression \<open>/viewBox\s*=\s*"([^"]+)"/i\<close> tried at the start of a
  string: the keyword in any case, white space, the equals sign, white space, a double
  quote, and the longest run of code units that are not a double quote, which must not
  be empty and must end at a double quote. The result is the captured run.
\<close>

definition match_here :: "js_string \<Rightarrow> js_string option" where
  "match_here s =
     (if map fold_case (take 7 s) = js ''viewbox''
      then (case dropWhile is_space (drop 7 s) of
              [] \<Rightarrow> None
            | c # r1 \<Rightarrow>
                if c = equals_sign
                then (case dropWhile is_space r1 of
                        [] \<Rightarrow> None
                      | q # r2 \<Rightarrow>
                          if q = dquote
                          then (let v = takeWhile (\<lambda>x. x \<noteq> dquote) r2
                                in if v \<noteq> [] \<and> dropWhile (\<lambda>x. x \<noteq> dquote) r2 \<noteq> []
                                   then Some v else None)
                          else None)
                else None)
      else None)"

text \<open>\<open>svgText.match\<close>: the match at the leftmost position that has one.\<close>

fun viewBoxMatch :: "js_string \<Rightarrow> js_string option" where
  "viewBoxMatch [] = None"
| "viewBoxMatch (c # cs) =
     (case match_here (c # cs) of Some v \<Rightarrow> Some v | None \<Rightarrow> viewBoxMatch cs)"







subsection \<open>The view box of a source, read off its text\<close>

text \<open>
  A string begins with a view box attribute of value \<open>v\<close>: it is the keyword
  \<open>viewBox\<close> in any letter case, optional white space, an equals sign, optional
  white space, a double quote, the non-empty value \<open>v\<close> without a double quote, and
  a double quote, followed by anything.
\<close>

definition view_box_attribute :: "js_string \<Rightarrow> js_string \<Rightarrow> bool" where
  "view_box_attribute s v =
     (\<exists>kw ws1 ws2 post.
        s = kw @ ws1 @ equals_sign # ws2 @ dquote # v @ dquote # post \<and>
        map fold_case kw = js ''viewbox'' \<and>
        list_all is_space ws1 \<and> list_all is_space ws2 \<and>
        v \<noteq> [] \<and> dquote \<notin> set v)"

text \<open>
  The first view box attribute of a source has the value \<open>v\<close>: one begins at some
  position of the text, on whatever element, and none begins at an earlier position.
\<close>

definition first_view_box :: "js_string \<Rightarrow> js_string \<Rightarrow> bool" where
  "first_view_box svg v =
     (\<exists>pre rest.
        svg = pre @ rest \<and> view_box_attribute rest v \<and>
        (\<forall>k < length pre. \<forall>u. \<not> view_box_attribute (drop k svg) u))"





section \<open>A small installation\<close>

text \<open>
  One document, one grant for it with \<open>n\<close> prints left, and collaborators that all
  answer: the concrete inputs on which the theorems below are instantiated.
\<close>

definition sample_document :: document_row where
  "sample_document = \<lparr>doc_id = 7, storage_path = ''tickets/gala.pdf''\<rparr>"

definition sample_grant :: "int \<Rightarrow> access_row" where
  "sample_grant n =
     \<lparr>access_id = 1, user_id = 42, document_id = 7, session_token = ''tok-1'',
      remaining_prints = n, expires_at = 2000, watermark_text = None\<rparr>"

definition sample_db :: "int \<Rightarrow> database" where
  "sample_db n =
     \<lparr>document_access = [sample_grant n], documents = [sample_document], print_logs = []\<rparr>"

definition sample_page :: pdf_page where
  "sample_page = \<lparr>page_width = 600, page_height = 800, page_content = [Original [1, 2, 3]]\<rparr>"

definition sample_world :: world where
  "sample_world =
     \<lparr>env_SVG_TO_PDF_URL = None,
      env_PDF_ENHANCE_URL = None,
      env_PDF_ENHANCE_API_KEY = None,
      env_PDF_ENHANCE_AUTH_HEADER_NAME = None,
      select_error = False,
      now_query = 1000,
      storage_download = (\<lambda>p. if p = ''tickets/gala.pdf'' then Some [37, 80, 68, 70] else None),
      update_error = False,
      insert_error = False,
      blob_text = (\<lambda>b. []),
      fetch = (\<lambda>url hs b. Network_error),
      pdf_load = (\<lambda>b. if b = [37, 80, 68, 70] then Some [sample_page] else None),
      text_encodable = (\<lambda>t. True),
      pdf_save = (\<lambda>d. [37, 80, 68, 70, of_nat (length d)]),
      now_watermark = 1001,
      toISOString = (\<lambda>i. ''1970-01-01T00:00:01.001Z'')\<rparr>"

definition sample_request :: "string \<Rightarrow> request" where
  "sample_request t =
     \<lparr>req_method = ''POST'', req_headers = [(''user-agent'', ''curl/8'')],
      req_json = Json_object (Some t)\<rparr>"

text \<open>The request with the grant's token on one print left.\<close>

abbreviation sample_outcome :: outcome where
  "sample_outcome \<equiv> secure_print sample_world (sample_db 1) (sample_request ''tok-1'')"







section \<open>Facts about the two halves of the handler\<close>

lemmas error_responses =
  token_required_def invalid_or_expired_def print_limit_exceeded_def document_not_found_def
  retrieve_failed_def process_failed_def convert_failed_def internal_error_def

lemmas sample_defs =
  sample_document_def sample_grant_def sample_db_def sample_page_def sample_world_def
  sample_request_def

lemmas handler_defs =
  secure_print_def authorize_def consume_and_deliver_def select_access_def
  joined_document_def update_remaining_def set_remaining_def insert_print_log_def
  normalize_def enhance_def print_log_of_def watermarkText_def footerText_def
  drawText_def or_else_def header_get_def endsWith_def toLowerCase_def lower_char_def

lemma select_access_One_row:
  assumes "select_access w db t = One_row a"
  shows "a \<in> set (document_access db)" "session_token a = t" "now_query w < expires_at a"
    "\<not> select_error w"
proof -
  from assms have f: "filter (\<lambda>r. session_token r = t \<and> now_query w < expires_at r)
      (document_access db) = [a]" and e: "\<not> select_error w"
    by (auto simp: select_access_def split: if_splits list.splits)
  have "a \<in> set (filter (\<lambda>r. session_token r = t \<and> now_query w < expires_at r)
      (document_access db))"
    unfolding f by simp
  then show "a \<in> set (document_access db)" "session_token a = t" "now_query w < expires_at a"
    by simp_all
  show "\<not> select_error w" by (rule e)
qed

lemma authorize_Inl_status:
  assumes "authorize w db req = (Inl r, tr)"
  shows "status r \<noteq> 200"
  using assms
  by (auto simp: authorize_def Let_def error_responses json_response_def
      split: request_json.splits option.splits if_splits query_result.splits)

lemma authorize_Inl_trace:
  assumes "authorize w db req = (Inl r, tr)"
  shows "tr = [] \<or> tr = [Validate] \<or> tr = [Validate, Fetch]"
  using assms
  by (auto simp: authorize_def Let_def
      split: request_json.splits option.splits if_splits query_result.splits)

lemma authorize_Inr:
  assumes "authorize w db req = (Inr s, tr)"
  shows "tr = [Validate, Fetch]"
    and "req_json req = Json_object (Some (snap_token s))"
    and "snap_token s \<noteq> []"
    and "select_access w db (snap_token s) = One_row (snap_access s)"
    and "0 < remaining_prints (snap_access s)"
    and "joined_document db (snap_access s) = Some (snap_document s)"
    and "storage_download w (storage_path (snap_document s)) = Some (snap_file s)"
    and "snap_user_agent s = or_else (header_get req ''user-agent'') ''unknown''"
    and "snap_ip_address s = or_else (header_get req ''x-forwarded-for'')
           (or_else (header_get req ''cf-connecting-ip'') ''unknown'')"
  using assms
  by (auto simp: authorize_def Let_def
      split: request_json.splits option.splits if_splits query_result.splits)

lemma normalize_Inl_status:
  assumes "normalize w d f = Inl r"
  shows "status r = 500"
  using assms
  by (auto simp: normalize_def convert_failed_def internal_error_def json_response_def
      split: if_splits fetch_result.splits option.splits)

lemma consume_delivered:
  assumes "status (reply (consume_and_deliver w db s)) = 200"
  shows "\<exists>buf pages stamped.
      \<not> update_error w \<and>
      normalize w (snap_document s) (snap_file s) = Inr buf \<and>
      pdf_load w (enhance w buf) = Some pages \<and>
      watermark_pages w (watermarkText w (snap_access s) (snap_token s))
        (footerText (snap_token s) (remaining_prints (snap_access s) - 1)) pages = Some stamped \<and>
      consume_and_deliver w db s =
        \<lparr>reply = pdf_response (pdf_save w stamped) (remaining_prints (snap_access s) - 1),
         store = insert_print_log w (set_remaining db (access_id (snap_access s)) (remaining_prints (snap_access s) - 1)) (print_log_of s),
         trace = [Decrement, Audit, Normalize, Enhance, Watermark, Deliver]\<rparr>"
  using assms
  by (auto simp: consume_and_deliver_def Let_def update_remaining_def
      process_failed_def internal_error_def json_response_def
      dest: normalize_Inl_status
      split: if_splits option.splits sum.splits)

lemma consume_store:
  "store (consume_and_deliver w db s) = db \<or>
   (\<not> update_error w \<and>
    store (consume_and_deliver w db s) =
      insert_print_log w (set_remaining db (access_id (snap_access s)) (remaining_prints (snap_access s) - 1)) (print_log_of s))"
  by (auto simp: consume_and_deliver_def Let_def update_remaining_def
      split: if_splits option.splits sum.splits)


lemma counter_step_refl: "counter_step r r"
  by (simp add: counter_step_def)

lemma set_remaining_step:
  assumes "distinct (map access_id (document_access db))" "a \<in> set (document_access db)"
  shows "list_all2 counter_step (document_access db)
           (document_access (set_remaining db (access_id a) (remaining_prints a - 1)))"
proof -
  have "counter_step r (if access_id r = access_id a
                        then r\<lparr>remaining_prints := remaining_prints a - 1\<rparr> else r)"
    if "r \<in> set (document_access db)" for r
  proof (cases "access_id r = access_id a")
    case True
    with assms that have "r = a"
      by (meson distinct_map inj_on_eq_iff)
    then show ?thesis by (simp add: counter_step_def)
  next
    case False
    then show ?thesis by (simp add: counter_step_refl)
  qed
  then show ?thesis
    by (simp add: set_remaining_def list_all2_map2 list_all2_same)
qed

lemma set_remaining_member:
  assumes "a \<in> set (document_access db)"
  shows "a\<lparr>remaining_prints := n\<rparr> \<in> set (document_access (set_remaining db (access_id a) n))"
  using assms by (force simp: set_remaining_def)

lemma insert_print_log_access [simp]:
  "document_access (insert_print_log w db e) = document_access db"
  by (simp add: insert_print_log_def)

text \<open>The installation's request with the valid token, on one print left.\<close>

lemma sample_run:
  "secure_print sample_world (sample_db 1) (sample_request ''tok-1'') =
     \<lparr>reply = pdf_response [37, 80, 68, 70, 1] 0,
      store = \<lparr>document_access = [sample_grant 0], documents = [sample_document],
               print_logs = [\<lparr>log_document_id = 7, log_user_id = 42,
                   log_session_token = ''tok-1'', log_ip_address = ''unknown'',
                   log_user_agent = ''curl/8''\<rparr>]\<rparr>,
      trace = handler_order\<rparr>"
  by (simp add: sample_defs handler_defs Let_def handler_order_def)

section \<open>The counter and the delivery\<close>

text \<open>
  An execution on its own. Where the identifiers of the grant table are distinct
  (\<open>id\<close> is its key), one execution of the handler, run without another request
  between its query and its update, leaves every grant as it was but for the counter;
  no counter has grown and none has dropped by more than one. A delivered print
  (status 200 with the document bytes) is produced only if the update reported no error
  and the grant of the request's token is stored with its counter lowered by one.
\<close>

theorem counter_monotone_and_coupled:
  assumes "distinct (map access_id (document_access db))"
  shows "list_all2 counter_step (document_access db)
           (document_access (store (secure_print w db req))) \<and>
         (delivered (reply (secure_print w db req)) \<longrightarrow>
            \<not> update_error w \<and>
            (\<exists>a \<in> set (document_access db).
               req_json req = Json_object (Some (session_token a)) \<and>
               a\<lparr>remaining_prints := remaining_prints a - 1\<rparr>
                 \<in> set (document_access (store (secure_print w db req)))))"
proof (cases "req_method req = ''OPTIONS''")
  case True
  then show ?thesis
    by (simp add: secure_print_def preflight_def delivered_def list_all2_same counter_step_refl)
next
  case False
  obtain x tr where a: "authorize w db req = (x, tr)" by (cases "authorize w db req")
  show ?thesis
  proof (cases x)
    case (Inl r)
    with a False authorize_Inl_status [of w db req r tr] show ?thesis
      by (simp add: secure_print_def delivered_def list_all2_same counter_step_refl
          split: body.splits)
  next
    case (Inr s)
    with a have au: "authorize w db req = (Inr s, tr)" by simp
    let ?a = "snap_access s"
    let ?out = "consume_and_deliver w db s"
    have sel: "select_access w db (snap_token s) = One_row ?a"
      by (rule authorize_Inr(4) [OF au])
    have mem: "?a \<in> set (document_access db)" and tok: "session_token ?a = snap_token s"
      using select_access_One_row [OF sel] by simp_all
    have sp: "reply (secure_print w db req) = reply ?out"
             "store (secure_print w db req) = store ?out"
      using False au by (simp_all add: secure_print_def Let_def)
    have step: "list_all2 counter_step (document_access db) (document_access (store ?out))"
      using consume_store [of w db s] set_remaining_step [OF assms mem]
      by (auto simp: list_all2_same counter_step_refl)
    have coupled: "\<not> update_error w \<and>
            (\<exists>a \<in> set (document_access db).
               req_json req = Json_object (Some (session_token a)) \<and>
               a\<lparr>remaining_prints := remaining_prints a - 1\<rparr>
                 \<in> set (document_access (store ?out)))"
      if "delivered (reply ?out)"
    proof -
      from that have "status (reply ?out) = 200"
        by (simp add: delivered_def split: body.splits)
      from consume_delivered [OF this] have ue: "\<not> update_error w"
        and st: "store ?out = insert_print_log w
            (set_remaining db (access_id ?a) (remaining_prints ?a - 1)) (print_log_of s)"
        by auto
      have "?a\<lparr>remaining_prints := remaining_prints ?a - 1\<rparr>
              \<in> set (document_access (store ?out))"
        unfolding st using set_remaining_member [OF mem] by simp
      moreover have "req_json req = Json_object (Some (session_token ?a))"
        using authorize_Inr(2) [OF au] tok by simp
      ultimately show ?thesis using ue mem by blast
    qed
    show ?thesis
      unfolding sp using step coupled by blast
  qed
qed

theorem counter_monotone_and_coupled_witness:
  "distinct (map access_id (document_access (sample_db 1))) \<and>
   delivered (reply (secure_print sample_world (sample_db 1) (sample_request ''tok-1''))) \<and>
   list_all2 counter_step (document_access (sample_db 1))
     (document_access (store (secure_print sample_world (sample_db 1) (sample_request ''tok-1'')))) \<and>
   \<not> update_error sample_world \<and>
   document_access (store (secure_print sample_world (sample_db 1) (sample_request ''tok-1'')))
     = [sample_grant 0]"
proof -
  have d: "distinct (map access_id (document_access (sample_db 1)))"
    by (simp add: sample_defs)
  have del: "delivered (reply (secure_print sample_world (sample_db 1) (sample_request ''tok-1'')))"
    by (simp add: sample_run delivered_def pdf_response_def)
  show ?thesis
    using counter_monotone_and_coupled [OF d, of sample_world "sample_request ''tok-1''"] d del
    by (simp add: sample_run)
qed

section \<open>Rejections\<close>

lemma authorize_rejects:
  assumes "req_json req = Json_object (Some t)" "t \<noteq> []"
    and "\<forall>r \<in> set (document_access db). session_token r = t \<longrightarrow> expires_at r \<le> now_query w"
  shows "authorize w db req = (Inl invalid_or_expired, [Validate])"
proof -
  have "filter (\<lambda>r. session_token r = t \<and> now_query w < expires_at r) (document_access db) = []"
    using assms(3) by (auto simp: filter_empty_conv)
  then have "select_access w db t = Query_error \<or> select_access w db t = No_row"
    by (simp add: select_access_def)
  then show ?thesis
    using assms(1,2) by (auto simp: authorize_def Let_def)
qed

lemma filter_token_unexpired:
  assumes "filter (\<lambda>r. session_token r = t) rows = [a]" "now < expires_at a"
  shows "filter (\<lambda>r. session_token r = t \<and> now < expires_at r) rows = [a]"
proof -
  have "filter (\<lambda>r. session_token r = t \<and> now < expires_at r) rows
        = filter (\<lambda>r. now < expires_at r) (filter (\<lambda>r. session_token r = t) rows)"
    by (simp add: conj_commute)
  then show ?thesis using assms by simp
qed

lemma select_access_grant:
  assumes "\<not> select_error w"
    and "filter (\<lambda>r. session_token r = t) (document_access db) = [a]"
    and "now_query w < expires_at a"
  shows "select_access w db t = One_row a"
  using assms(1) filter_token_unexpired [OF assms(2,3)] by (simp add: select_access_def)

lemma authorize_exhausted:
  assumes "req_json req = Json_object (Some t)" "t \<noteq> []"
    and "\<not> select_error w"
    and "filter (\<lambda>r. session_token r = t) (document_access db) = [a]"
    and "now_query w < expires_at a"
    and "remaining_prints a \<le> 0"
  shows "authorize w db req = (Inl print_limit_exceeded, [Validate])"
  using assms(1,2,6) select_access_grant [OF assms(3,4,5)]
  by (simp add: authorize_def Let_def)

text \<open>
  Claim C6. A request whose token no grant has, and a request whose token belongs only
  to grants that have expired (the expiry is not after the clock reading of the query),
  get the same response whatever the counters are: status 403 with the body
  \<open>{"error": "Invalid or expired session"}\<close>. Neither changes the database, and
  neither reaches the update of the counter. The token of either request is a
  non-empty string; an empty or missing token is answered with status 400 before
  any grant is looked up.
\<close>

theorem rejected_sessions_indistinguishable:
  assumes "req_method req1 \<noteq> ''OPTIONS''" "req_json req1 = Json_object (Some t1)" "t1 \<noteq> []"
    and "req_method req2 \<noteq> ''OPTIONS''" "req_json req2 = Json_object (Some t2)" "t2 \<noteq> []"
    and unknown: "\<forall>r \<in> set (document_access db1). session_token r \<noteq> t1"
    and expired: "\<forall>r \<in> set (document_access db2).
                    session_token r = t2 \<longrightarrow> expires_at r \<le> now_query w2"
  shows "reply (secure_print w1 db1 req1) = invalid_or_expired \<and>
         reply (secure_print w2 db2 req2) = invalid_or_expired \<and>
         store (secure_print w1 db1 req1) = db1 \<and>
         store (secure_print w2 db2 req2) = db2 \<and>
         Decrement \<notin> set (trace (secure_print w1 db1 req1)) \<and>
         Decrement \<notin> set (trace (secure_print w2 db2 req2))"
proof -
  have a1: "authorize w1 db1 req1 = (Inl invalid_or_expired, [Validate])"
    using assms(2,3) unknown by (intro authorize_rejects) auto
  have a2: "authorize w2 db2 req2 = (Inl invalid_or_expired, [Validate])"
    using assms(5,6) expired by (intro authorize_rejects) auto
  show ?thesis
    using assms(1,4) by (simp add: secure_print_def a1 a2)
qed

theorem rejected_sessions_indistinguishable_witness:
  "reply (secure_print sample_world (sample_db 3) (sample_request ''nobody'')) =
     invalid_or_expired \<and>
   reply (secure_print (sample_world\<lparr>now_query := 2000\<rparr>) (sample_db 3)
            (sample_request ''tok-1'')) = invalid_or_expired \<and>
   store (secure_print (sample_world\<lparr>now_query := 2000\<rparr>) (sample_db 3)
            (sample_request ''tok-1'')) = sample_db 3 \<and>
   status invalid_or_expired = 403 \<and>
   body invalid_or_expired = Json_body [(''error'', JString ''Invalid or expired session'')]"
proof -
  have "reply (secure_print sample_world (sample_db 3) (sample_request ''nobody'')) =
          invalid_or_expired \<and>
        reply (secure_print (sample_world\<lparr>now_query := 2000\<rparr>) (sample_db 3)
            (sample_request ''tok-1'')) = invalid_or_expired \<and>
        store (secure_print sample_world (sample_db 3) (sample_request ''nobody'')) =
          sample_db 3 \<and>
        store (secure_print (sample_world\<lparr>now_query := 2000\<rparr>) (sample_db 3)
            (sample_request ''tok-1'')) = sample_db 3 \<and>
        Decrement \<notin> set (trace (secure_print sample_world (sample_db 3)
            (sample_request ''nobody''))) \<and>
        Decrement \<notin> set (trace (secure_print (sample_world\<lparr>now_query := 2000\<rparr>)
            (sample_db 3) (sample_request ''tok-1'')))"
    by (rule rejected_sessions_indistinguishable
          [where ?t1.0 = "''nobody''" and ?t2.0 = "''tok-1''"])
       (simp_all add: sample_defs)
  then show ?thesis
    by (simp add: invalid_or_expired_def json_response_def)
qed

text \<open>
  Claim C5. A request with the token of a grant that is the only row with that token,
  has not expired and has no prints left gets status 403 with the body
  \<open>{"error": "Print limit exceeded", "remaining_prints": 0}\<close>, and the database,
  the grant's counter with it, is left as it was. The access query itself does not fail.
\<close>

theorem exhausted_grant_rejected:
  assumes "req_method req \<noteq> ''OPTIONS''" "req_json req = Json_object (Some t)" "t \<noteq> []"
    and "\<not> select_error w"
    and "filter (\<lambda>r. session_token r = t) (document_access db) = [a]"
    and "now_query w < expires_at a"
    and "remaining_prints a = 0"
  shows "reply (secure_print w db req) = print_limit_exceeded \<and>
         status print_limit_exceeded = 403 \<and>
         body print_limit_exceeded =
           Json_body [(''error'', JString ''Print limit exceeded''),
                      (''remaining_prints'', JNumber 0)] \<and>
         store (secure_print w db req) = db"
proof -
  have "authorize w db req = (Inl print_limit_exceeded, [Validate])"
    using assms(7) by (intro authorize_exhausted [OF assms(2,3,4,5,6)]) simp
  then show ?thesis
    using assms(1) by (simp add: secure_print_def print_limit_exceeded_def json_response_def)
qed

theorem exhausted_grant_rejected_witness:
  "reply (secure_print sample_world (sample_db 0) (sample_request ''tok-1'')) =
     print_limit_exceeded \<and>
   store (secure_print sample_world (sample_db 0) (sample_request ''tok-1'')) = sample_db 0 \<and>
   remaining_prints (sample_grant 0) = 0 \<and>
   now_query sample_world < expires_at (sample_grant 0)"
proof -
  have "reply (secure_print sample_world (sample_db 0) (sample_request ''tok-1'')) =
          print_limit_exceeded \<and>
        status print_limit_exceeded = 403 \<and>
        body print_limit_exceeded =
           Json_body [(''error'', JString ''Print limit exceeded''),
                      (''remaining_prints'', JNumber 0)] \<and>
        store (secure_print sample_world (sample_db 0) (sample_request ''tok-1'')) =
          sample_db 0"
    by (rule exhausted_grant_rejected [where a = "sample_grant 0" and t = "''tok-1''"])
       (simp_all add: sample_defs)
  then show ?thesis
    by (simp add: sample_defs)
qed

section \<open>The delivered print\<close>

lemma watermark_pages_Some:
  assumes "watermark_pages w mark footer pages = Some stamped"
  shows "stamped = map (stamped_page mark footer) pages"
  using assms
proof (induction pages arbitrary: stamped)
  case Nil
  then show ?case by simp
next
  case (Cons page pages)
  then show ?case
    by (auto simp: drawText_def stamped_page_def split: if_splits option.splits)
qed

lemma watermark_pages_encodable:
  assumes "\<forall>t. text_encodable w t"
  shows "watermark_pages w mark footer pages = Some (map (stamped_page mark footer) pages)"
  using assms by (induction pages) (simp_all add: drawText_def stamped_page_def)

lemma joined_document_id:
  assumes "joined_document db a = Some d"
  shows "doc_id d = document_id a"
  using assms by (auto simp: joined_document_def find_Some_iff)

lemma secure_print_delivered:
  assumes "delivered (reply (secure_print w db req))"
  shows "\<exists>s buf pages.
      authorize w db req = (Inr s, [Validate, Fetch]) \<and>
      \<not> update_error w \<and>
      normalize w (snap_document s) (snap_file s) = Inr buf \<and>
      pdf_load w (enhance w buf) = Some pages \<and>
      secure_print w db req =
        \<lparr>reply = pdf_response
           (pdf_save w (map (stamped_page (watermarkText w (snap_access s) (snap_token s))
               (footerText (snap_token s) (remaining_prints (snap_access s) - 1))) pages))
           (remaining_prints (snap_access s) - 1),
         store = insert_print_log w
           (set_remaining db (access_id (snap_access s)) (remaining_prints (snap_access s) - 1))
           (print_log_of s),
         trace = handler_order\<rparr>"
proof -
  have no: "req_method req \<noteq> ''OPTIONS''"
    using assms by (auto simp: secure_print_def delivered_def preflight_def)
  obtain x tr where a: "authorize w db req = (x, tr)" by (cases "authorize w db req")
  show ?thesis
  proof (cases x)
    case (Inl r)
    with a no assms authorize_Inl_status [of w db req r tr] show ?thesis
      by (simp add: secure_print_def delivered_def split: body.splits)
  next
    case (Inr s)
    with a have "authorize w db req = (Inr s, tr)" by simp
    with authorize_Inr(1) [OF this] have au: "authorize w db req = (Inr s, [Validate, Fetch])"
      by simp
    have sp: "secure_print w db req =
        (consume_and_deliver w db s)\<lparr>trace := [Validate, Fetch] @ trace (consume_and_deliver w db s)\<rparr>"
      using no au by (simp add: secure_print_def Let_def)
    have "status (reply (consume_and_deliver w db s)) = 200"
      using assms unfolding sp by (simp add: delivered_def split: body.splits)
    from consume_delivered [OF this] obtain buf pages stamped where
      f: "\<not> update_error w" "normalize w (snap_document s) (snap_file s) = Inr buf"
        "pdf_load w (enhance w buf) = Some pages"
        "watermark_pages w (watermarkText w (snap_access s) (snap_token s))
           (footerText (snap_token s) (remaining_prints (snap_access s) - 1)) pages = Some stamped"
        "consume_and_deliver w db s =
          \<lparr>reply = pdf_response (pdf_save w stamped) (remaining_prints (snap_access s) - 1),
           store = insert_print_log w (set_remaining db (access_id (snap_access s))
               (remaining_prints (snap_access s) - 1)) (print_log_of s),
           trace = [Decrement, Audit, Normalize, Enhance, Watermark, Deliver]\<rparr>"
      by blast
    have "secure_print w db req =
        \<lparr>reply = pdf_response (pdf_save w stamped) (remaining_prints (snap_access s) - 1),
           store = insert_print_log w (set_remaining db (access_id (snap_access s))
               (remaining_prints (snap_access s) - 1)) (print_log_of s),
           trace = handler_order\<rparr>"
      unfolding sp f(5) by (simp add: handler_order_def)
    with watermark_pages_Some [OF f(4)] au f(1,2,3) show ?thesis by blast
  qed
qed

lemma select_access_ignores_enhance_url [simp]:
  "select_access (w\<lparr>env_PDF_ENHANCE_URL := u\<rparr>) db t = select_access w db t"
  by (simp add: select_access_def)

lemma authorize_ignores_enhance_url [simp]:
  "authorize (w\<lparr>env_PDF_ENHANCE_URL := u\<rparr>) db req = authorize w db req"
  by (simp add: authorize_def Let_def
      cong: request_json.case_cong option.case_cong query_result.case_cong if_cong)

lemma normalize_ignores_enhance_url [simp]:
  "normalize (w\<lparr>env_PDF_ENHANCE_URL := u\<rparr>) d f = normalize w d f"
  by (simp add: normalize_def svgToPdfUrl_def)

lemma watermark_pages_ignores_enhance_url [simp]:
  "watermark_pages (w\<lparr>env_PDF_ENHANCE_URL := u\<rparr>) m f pages = watermark_pages w m f pages"
  by (induction pages) (simp_all add: drawText_def)

lemma enhance_disabled [simp]:
  "enhance (w\<lparr>env_PDF_ENHANCE_URL := None\<rparr>) buf = buf"
  by (simp add: enhance_def)




section \<open>The order of the stages\<close>

lemma consume_trace:
  "trace (consume_and_deliver w db s) \<in>
     {[Decrement], [Decrement, Audit, Normalize],
      [Decrement, Audit, Normalize, Enhance, Watermark],
      [Decrement, Audit, Normalize, Enhance, Watermark, Deliver]}"
  by (simp add: consume_and_deliver_def Let_def split: option.splits sum.splits)

lemma secure_print_trace:
  "trace (secure_print w db req) \<in> set (prefixes handler_order)"
proof (cases "req_method req = ''OPTIONS''")
  case True
  then show ?thesis by (simp add: secure_print_def)
next
  case False
  obtain x tr where a: "authorize w db req = (x, tr)" by (cases "authorize w db req")
  show ?thesis
  proof (cases x)
    case (Inl r)
    with a authorize_Inl_trace [of w db req r tr] False show ?thesis
      by (auto simp: secure_print_def handler_order_def)
  next
    case (Inr s)
    with a authorize_Inr(1) [of w db req s tr] False consume_trace [of w db s] show ?thesis
      by (auto simp: secure_print_def handler_order_def Let_def)
  qed
qed

lemma handler_order_precedes:
  assumes "tr \<in> set (prefixes handler_order)"
  shows "\<not> precedes Decrement Fetch tr" "\<not> precedes Watermark Audit tr"
  using assms by (auto simp: handler_order_def)

lemma sample_delivered: "delivered (reply sample_outcome)"
  by (simp add: sample_run delivered_def pdf_response_def)

text \<open>
  Claim C3, as the handler has it. The stages of every request are an initial part of
  the sequence access validation, source fetch, quota decrement, audit logging,
  normalization, enhancement, watermarking, delivery, and a delivered print has gone
  through all of them in that order. So the source bytes are fetched before the
  counter is decremented, and the audit-log insert comes before the watermark; in no
  request does the decrement come before the fetch, or the watermark before the
  audit-log insert.
\<close>

theorem stages_in_handler_order:
  "prefix (trace (secure_print w db req)) handler_order \<and>
   (delivered (reply (secure_print w db req)) \<longrightarrow>
      trace (secure_print w db req) = handler_order) \<and>
   \<not> precedes Decrement Fetch (trace (secure_print w db req)) \<and>
   \<not> precedes Watermark Audit (trace (secure_print w db req))"
proof -
  have p: "trace (secure_print w db req) \<in> set (prefixes handler_order)"
    by (rule secure_print_trace)
  have "trace (secure_print w db req) = handler_order"
    if "delivered (reply (secure_print w db req))"
    using secure_print_delivered [OF that] by auto
  with p handler_order_precedes [OF p] show ?thesis
    by (simp add: in_set_prefixes)
qed

theorem stages_in_handler_order_witness:
  "delivered (reply sample_outcome) \<and>
   trace sample_outcome =
     [Validate, Fetch, Decrement, Audit, Normalize, Enhance, Watermark, Deliver]"
  using stages_in_handler_order [of sample_world "sample_db 1" "sample_request ''tok-1''"]
    sample_delivered
  by (simp add: handler_order_def)

text \<open>
  The order the claim C3 states fails on the installation's delivered print: there the
  fetch comes before the decrement and the audit-log insert before the watermark, and
  not the other way round.
\<close>

theorem decrement_before_fetch_counterexample:
  "precedes Fetch Decrement (trace sample_outcome) \<and>
   precedes Audit Watermark (trace sample_outcome) \<and>
   \<not> precedes Decrement Fetch (trace sample_outcome) \<and>
   \<not> precedes Watermark Audit (trace sample_outcome)"
  by (simp add: sample_run handler_order_def)

section \<open>The remaining count, the watermark and the pages\<close>

lemma delivered_grant:
  assumes "authorize w db req = (Inr s, tr)"
  shows "snap_access s \<in> set (document_access db)"
    and "req_json req = Json_object (Some (session_token (snap_access s)))"
    and "snap_token s = session_token (snap_access s)"
    and "doc_id (snap_document s) = document_id (snap_access s)"
proof -
  have sel: "select_access w db (snap_token s) = One_row (snap_access s)"
    by (rule authorize_Inr(4) [OF assms])
  show "snap_access s \<in> set (document_access db)"
    by (rule select_access_One_row(1) [OF sel])
  show t: "snap_token s = session_token (snap_access s)"
    using select_access_One_row(2) [OF sel] by simp
  show "req_json req = Json_object (Some (session_token (snap_access s)))"
    using authorize_Inr(2) [OF assms] t by simp
  show "doc_id (snap_document s) = document_id (snap_access s)"
    by (rule joined_document_id [OF authorize_Inr(6) [OF assms]])
qed

text \<open>
  Claim C4, as the handler has it. On every delivered print the count the handler
  computes for the update, the grant's counter less one, is the count stored for the
  grant and, as a decimal string, the value of the header \<open>X-Remaining-Prints\<close>.
  The entry inserted into the print log holds the document, the grant's user, the
  token, the client address and the user agent; it has no field for the count. When
  the insert fails the log is left as it was.
\<close>

theorem remaining_count_in_header:
  assumes "delivered (reply (secure_print w db req))"
  shows "\<exists>a \<in> set (document_access db).
           req_json req = Json_object (Some (session_token a)) \<and>
           a\<lparr>remaining_prints := remaining_prints a - 1\<rparr>
             \<in> set (document_access (store (secure_print w db req))) \<and>
           remaining_header (reply (secure_print w db req)) =
             Some (toString (remaining_prints a - 1)) \<and>
           print_logs (store (secure_print w db req)) =
             print_logs db @
             (if insert_error w then []
              else [\<lparr>log_document_id = document_id a,
                     log_user_id = user_id a,
                     log_session_token = session_token a,
                     log_ip_address =
                       or_else (header_get req ''x-forwarded-for'')
                         (or_else (header_get req ''cf-connecting-ip'') ''unknown''),
                     log_user_agent = or_else (header_get req ''user-agent'') ''unknown''\<rparr>])"
proof -
  from secure_print_delivered [OF assms] obtain s buf pages where
    au: "authorize w db req = (Inr s, [Validate, Fetch])" and
    sp: "secure_print w db req =
        \<lparr>reply = pdf_response
           (pdf_save w (map (stamped_page (watermarkText w (snap_access s) (snap_token s))
               (footerText (snap_token s) (remaining_prints (snap_access s) - 1))) pages))
           (remaining_prints (snap_access s) - 1),
         store = insert_print_log w
           (set_remaining db (access_id (snap_access s)) (remaining_prints (snap_access s) - 1))
           (print_log_of s),
         trace = handler_order\<rparr>"
    by blast
  let ?a = "snap_access s"
  note g = delivered_grant [OF au]
  have 1: "?a\<lparr>remaining_prints := remaining_prints ?a - 1\<rparr>
             \<in> set (document_access (store (secure_print w db req)))"
    unfolding sp using set_remaining_member [OF g(1)] by simp
  have 2: "remaining_header (reply (secure_print w db req)) =
             Some (toString (remaining_prints ?a - 1))"
    unfolding sp by (simp add: remaining_header_def pdf_response_def corsHeaders_def)
  have 3: "print_logs (store (secure_print w db req)) =
             print_logs db @
             (if insert_error w then []
              else [\<lparr>log_document_id = document_id ?a,
                     log_user_id = user_id ?a,
                     log_session_token = session_token ?a,
                     log_ip_address =
                       or_else (header_get req ''x-forwarded-for'')
                         (or_else (header_get req ''cf-connecting-ip'') ''unknown''),
                     log_user_agent = or_else (header_get req ''user-agent'') ''unknown''\<rparr>])"
    unfolding sp
    using g(3,4) authorize_Inr(8,9) [OF au]
    by (simp add: insert_print_log_def set_remaining_def print_log_of_def)
  from g(1,2) 1 2 3 show ?thesis by blast
qed

theorem remaining_count_in_header_witness:
  "delivered (reply sample_outcome) \<and>
   remaining_header (reply sample_outcome) = Some ''0'' \<and>
   document_access (store sample_outcome) = [sample_grant 0] \<and>
   print_logs (store sample_outcome) =
     [\<lparr>log_document_id = 7, log_user_id = 42, log_session_token = ''tok-1'',
       log_ip_address = ''unknown'', log_user_agent = ''curl/8''\<rparr>]"
proof -
  from remaining_count_in_header [OF sample_delivered]
  obtain a where "a \<in> set (document_access (sample_db 1))"
    "remaining_header (reply sample_outcome) = Some (toString (remaining_prints a - 1))"
    by blast
  then have "remaining_header (reply sample_outcome) = Some (toString 0)"
    by (simp add: sample_db_def sample_grant_def)
  then show ?thesis
    using sample_delivered by (simp add: sample_run toString_def digits.simps)
qed

text \<open>
  The claim C4 as it is worded fails in two ways. The audit-log entry does not carry
  the count: the same request on five prints left and on one print left inserts the
  same entry, while the header reads 4 and 0. And a consumption that is not followed by
  a delivery has no header: when the parser rejects the document, the counter has gone
  from 2 to 1 and the response is status 500 without the remaining-use header.
\<close>

theorem count_in_audit_log_counterexample:
  "print_logs (store (secure_print sample_world (sample_db 5) (sample_request ''tok-1''))) =
   print_logs (store (secure_print sample_world (sample_db 1) (sample_request ''tok-1''))) \<and>
   remaining_header (reply (secure_print sample_world (sample_db 5) (sample_request ''tok-1'')))
     = Some ''4'' \<and>
   remaining_header (reply (secure_print sample_world (sample_db 1) (sample_request ''tok-1'')))
     = Some ''0'' \<and>
   length (print_logs (store (secure_print sample_world (sample_db 5)
     (sample_request ''tok-1'')))) = 1 \<and>
   document_access (store (secure_print (sample_world\<lparr>pdf_load := \<lambda>b. None\<rparr>) (sample_db 2)
     (sample_request ''tok-1''))) = [sample_grant 1] \<and>
   status (reply (secure_print (sample_world\<lparr>pdf_load := \<lambda>b. None\<rparr>) (sample_db 2)
     (sample_request ''tok-1''))) = 500 \<and>
   remaining_header (reply (secure_print (sample_world\<lparr>pdf_load := \<lambda>b. None\<rparr>) (sample_db 2)
     (sample_request ''tok-1''))) = None"
  by (simp add: sample_defs handler_defs Let_def remaining_header_def pdf_response_def
      corsHeaders_def toString_def digits.simps internal_error_def json_response_def)



text \<open>
  Claim C10. The watermark loop returns as many pages as it is given, each with the
  width and the height it had and with its content kept before the added texts; and
  the document of a delivered print has the page count and the page sizes of the
  document loaded from the converted and possibly enhanced source.
\<close>

theorem watermark_keeps_pages:
  "(watermark_pages w mark footer pages = Some stamped \<longrightarrow>
      length stamped = length pages \<and>
      list_all2 same_size pages stamped \<and>
      list_all2 (\<lambda>p q. prefix (page_content p) (page_content q)) pages stamped) \<and>
   (delivered (reply (secure_print w db req)) \<longrightarrow>
      (\<exists>s buf loaded saved.
         authorize w db req = (Inr s, [Validate, Fetch]) \<and>
         normalize w (snap_document s) (snap_file s) = Inr buf \<and>
         pdf_load w (enhance w buf) = Some loaded \<and>
         body (reply (secure_print w db req)) = Bytes_body (pdf_save w saved) \<and>
         length saved = length loaded \<and>
         list_all2 same_size loaded saved))"
proof (intro conjI impI)
  assume "watermark_pages w mark footer pages = Some stamped"
  then have st: "stamped = map (stamped_page mark footer) pages"
    by (rule watermark_pages_Some)
  show "length stamped = length pages" by (simp add: st)
  show "list_all2 same_size pages stamped"
    by (simp add: st list_all2_map2 list_all2_same same_size_def stamped_page_def)
  show "list_all2 (\<lambda>p q. prefix (page_content p) (page_content q)) pages stamped"
    by (simp add: st list_all2_map2 list_all2_same stamped_page_def)
next
  assume "delivered (reply (secure_print w db req))"
  from secure_print_delivered [OF this] obtain s buf pages where
    au: "authorize w db req = (Inr s, [Validate, Fetch])" and
    no: "normalize w (snap_document s) (snap_file s) = Inr buf" and
    ld: "pdf_load w (enhance w buf) = Some pages" and
    sp: "secure_print w db req =
        \<lparr>reply = pdf_response
           (pdf_save w (map (stamped_page (watermarkText w (snap_access s) (snap_token s))
               (footerText (snap_token s) (remaining_prints (snap_access s) - 1))) pages))
           (remaining_prints (snap_access s) - 1),
         store = insert_print_log w
           (set_remaining db (access_id (snap_access s)) (remaining_prints (snap_access s) - 1))
           (print_log_of s),
         trace = handler_order\<rparr>"
    by blast
  let ?saved = "map (stamped_page (watermarkText w (snap_access s) (snap_token s))
               (footerText (snap_token s) (remaining_prints (snap_access s) - 1))) pages"
  have "body (reply (secure_print w db req)) = Bytes_body (pdf_save w ?saved)"
    unfolding sp by (simp add: pdf_response_def)
  moreover have "length ?saved = length pages" by simp
  moreover have "list_all2 same_size pages ?saved"
    by (simp add: list_all2_map2 list_all2_same same_size_def stamped_page_def)
  ultimately show "\<exists>s buf loaded saved.
         authorize w db req = (Inr s, [Validate, Fetch]) \<and>
         normalize w (snap_document s) (snap_file s) = Inr buf \<and>
         pdf_load w (enhance w buf) = Some loaded \<and>
         body (reply (secure_print w db req)) = Bytes_body (pdf_save w saved) \<and>
         length saved = length loaded \<and>
         list_all2 same_size loaded saved"
    using au no ld by blast
qed

theorem watermark_keeps_pages_witness:
  "watermark_pages sample_world ''mark'' ''foot'' [sample_page, sample_page] =
     Some [stamped_page ''mark'' ''foot'' sample_page, stamped_page ''mark'' ''foot'' sample_page] \<and>
   length [stamped_page ''mark'' ''foot'' sample_page, stamped_page ''mark'' ''foot'' sample_page]
     = length [sample_page, sample_page] \<and>
   list_all2 same_size [sample_page, sample_page]
     [stamped_page ''mark'' ''foot'' sample_page, stamped_page ''mark'' ''foot'' sample_page] \<and>
   delivered (reply sample_outcome)"
proof -
  have e: "watermark_pages sample_world ''mark'' ''foot'' [sample_page, sample_page] =
     Some [stamped_page ''mark'' ''foot'' sample_page, stamped_page ''mark'' ''foot'' sample_page]"
    by (simp add: drawText_def stamped_page_def sample_world_def)
  show ?thesis
    using watermark_keeps_pages [of sample_world "''mark''" "''foot''"
        "[sample_page, sample_page]"
        "[stamped_page ''mark'' ''foot'' sample_page, stamped_page ''mark'' ''foot'' sample_page]"
        "sample_db 1" "sample_request ''tok-1''"] e sample_delivered
    by blast
qed

section \<open>One use left, many requests\<close>

lemma advance_twice:
  "(case advance db (Arrived w req) of (db1, t1) \<Rightarrow> advance db1 t1) =
     (store (secure_print w db req), Replied (reply (secure_print w db req)))"
  by (cases "authorize w db req")
     (auto simp: advance_def secure_print_def Let_def split: sum.splits)

lemma filter_token_set_remaining:
  "filter (\<lambda>r. session_token r = t) (document_access (set_remaining db i n)) =
     map (\<lambda>r. if access_id r = i then r\<lparr>remaining_prints := n\<rparr> else r)
       (filter (\<lambda>r. session_token r = t) (document_access db))"
proof -
  have "filter (\<lambda>r. session_token r = t)
          (map (\<lambda>r. if access_id r = i then r\<lparr>remaining_prints := n\<rparr> else r) rows) =
        map (\<lambda>r. if access_id r = i then r\<lparr>remaining_prints := n\<rparr> else r)
          (filter (\<lambda>r. session_token r = t) rows)" for rows
    by (induction rows) auto
  then show ?thesis
    by (simp add: set_remaining_def)
qed

lemma not_delivered_limit [simp]: "\<not> delivered print_limit_exceeded"
  by (simp add: delivered_def print_limit_exceeded_def json_response_def)

lemma secure_print_succeeds:
  assumes "req_method req \<noteq> ''OPTIONS''" "req_json req = Json_object (Some t)" "t \<noteq> []"
    and "filter (\<lambda>r. session_token r = t) (document_access db) = [a]"
    and "now_query w < expires_at a"
    and "0 < remaining_prints a"
    and "collaborators_succeed w db a"
  shows "delivered (reply (secure_print w db req))"
    and "document_access (store (secure_print w db req)) =
           document_access (set_remaining db (access_id a) (remaining_prints a - 1))"
proof -
  from assms(7) have se: "\<not> select_error w" and ue: "\<not> update_error w"
    and enc: "\<forall>t. text_encodable w t"
    by (simp_all add: collaborators_succeed_def)
  from assms(7) obtain d fileData buf pages where
    d: "joined_document db a = Some d" and
    f: "storage_download w (storage_path d) = Some fileData" and
    n: "normalize w d fileData = Inr buf" and
    l: "pdf_load w (enhance w buf) = Some pages"
    by (auto simp: collaborators_succeed_def split: option.splits sum.splits)
  have sel: "select_access w db t = One_row a"
    by (rule select_access_grant [OF se assms(4,5)])
  have au: "fst (authorize w db req) =
      Inr \<lparr>snap_token = t,
           snap_user_agent = or_else (header_get req ''user-agent'') ''unknown'',
           snap_ip_address = or_else (header_get req ''x-forwarded-for'')
                            (or_else (header_get req ''cf-connecting-ip'') ''unknown''),
           snap_access = a, snap_document = d, snap_file = fileData\<rparr>"
    using assms(2,3,6) sel d f by (simp add: authorize_def Let_def)
  obtain x tr where xt: "authorize w db req = (x, tr)" by (cases "authorize w db req")
  with au have x: "x = Inr \<lparr>snap_token = t,
           snap_user_agent = or_else (header_get req ''user-agent'') ''unknown'',
           snap_ip_address = or_else (header_get req ''x-forwarded-for'')
                            (or_else (header_get req ''cf-connecting-ip'') ''unknown''),
           snap_access = a, snap_document = d, snap_file = fileData\<rparr>"
    by simp
  show "delivered (reply (secure_print w db req))"
    using assms(1) xt x ue n l watermark_pages_encodable [OF enc]
    by (simp add: secure_print_def consume_and_deliver_def Let_def update_remaining_def
        delivered_def pdf_response_def)
  show "document_access (store (secure_print w db req)) =
           document_access (set_remaining db (access_id a) (remaining_prints a - 1))"
    using assms(1) xt x ue n l watermark_pages_encodable [OF enc]
    by (simp add: secure_print_def consume_and_deliver_def Let_def update_remaining_def)
qed

lemma serve_all_exhausted:
  assumes "t \<noteq> []"
    and "filter (\<lambda>r. session_token r = t) (document_access db) = [a]"
    and "remaining_prints a \<le> 0"
    and "\<forall>(w, req) \<in> set rest.
           req_method req \<noteq> ''OPTIONS'' \<and> req_json req = Json_object (Some t) \<and>
           \<not> select_error w \<and> now_query w < expires_at a"
  shows "serve_all db rest = (replicate (length rest) print_limit_exceeded, db)"
  using assms(4)
proof (induction rest)
  case Nil
  then show ?case by simp
next
  case (Cons p rest)
  obtain w req where p: "p = (w, req)" by (cases p)
  with Cons.prems have h: "req_method req \<noteq> ''OPTIONS''" "req_json req = Json_object (Some t)"
    "\<not> select_error w" "now_query w < expires_at a"
    by auto
  have "authorize w db req = (Inl print_limit_exceeded, [Validate])"
    by (rule authorize_exhausted [OF h(2) assms(1) h(3) assms(2) h(4) assms(3)])
  then have "reply (secure_print w db req) = print_limit_exceeded"
    "store (secure_print w db req) = db"
    using h(1) by (simp_all add: secure_print_def)
  moreover have "serve_all db rest = (replicate (length rest) print_limit_exceeded, db)"
    using Cons by simp
  ultimately show ?case
    by (simp add: p Let_def)
qed

text \<open>
  Requests served one after another. When the requests for a grant with exactly one
  print left are served in sequence, the collaborators of the first one succeed, and
  the access query of each later one does not fail while the grant is still unexpired,
  exactly one request is delivered the print, the grant's counter ends at 0 and every
  other request gets the quota rejection.
\<close>

theorem sequential_single_use:
  assumes "t \<noteq> []"
    and "filter (\<lambda>r. session_token r = t) (document_access db) = [a]"
    and "remaining_prints a = 1"
    and "req_method req1 \<noteq> ''OPTIONS''" "req_json req1 = Json_object (Some t)"
    and "now_query w1 < expires_at a"
    and "collaborators_succeed w1 db a"
    and "\<forall>(w, req) \<in> set rest.
           req_method req \<noteq> ''OPTIONS'' \<and> req_json req = Json_object (Some t) \<and>
           \<not> select_error w \<and> now_query w < expires_at a"
  shows "\<exists>r1. delivered r1 \<and>
           fst (serve_all db ((w1, req1) # rest)) =
             r1 # replicate (length rest) print_limit_exceeded \<and>
           one_print_rest_rejected (fst (serve_all db ((w1, req1) # rest))) \<and>
           filter (\<lambda>r. session_token r = t)
             (document_access (snd (serve_all db ((w1, req1) # rest)))) =
             [a\<lparr>remaining_prints := 0\<rparr>]"
proof -
  let ?out = "secure_print w1 db req1"
  have pos: "0 < remaining_prints a" using assms(3) by simp
  have del: "delivered (reply ?out)"
    by (rule secure_print_succeeds(1) [OF assms(4,5,1,2,6) pos assms(7)])
  have st: "document_access (store ?out) = document_access (set_remaining db (access_id a) 0)"
    using secure_print_succeeds(2) [OF assms(4,5,1,2,6) pos assms(7)] assms(3) by simp
  have gr: "filter (\<lambda>r. session_token r = t) (document_access (store ?out)) =
              [a\<lparr>remaining_prints := 0\<rparr>]"
    unfolding st filter_token_set_remaining assms(2) by simp
  have rest: "serve_all (store ?out) rest =
                (replicate (length rest) print_limit_exceeded, store ?out)"
    by (rule serve_all_exhausted [OF assms(1) gr]) (use assms(8) in auto)
  have all: "serve_all db ((w1, req1) # rest) =
               (reply ?out # replicate (length rest) print_limit_exceeded, store ?out)"
    by (simp add: rest Let_def)
  have "one_print_rest_rejected (reply ?out # replicate (length rest) print_limit_exceeded)"
    using del by (simp add: one_print_rest_rejected_def)
  with del gr all show ?thesis by simp
qed

theorem sequential_single_use_witness:
  "fst (serve_all (sample_db 1)
          [(sample_world, sample_request ''tok-1''), (sample_world, sample_request ''tok-1''),
           (sample_world, sample_request ''tok-1'')]) =
     [reply sample_outcome, print_limit_exceeded, print_limit_exceeded] \<and>
   delivered (reply sample_outcome) \<and>
   document_access (snd (serve_all (sample_db 1)
          [(sample_world, sample_request ''tok-1''), (sample_world, sample_request ''tok-1''),
           (sample_world, sample_request ''tok-1'')])) = [sample_grant 0]"
proof -
  have c: "collaborators_succeed sample_world (sample_db 1) (sample_grant 1)"
    by (simp add: collaborators_succeed_def sample_defs joined_document_def normalize_def
        enhance_def endsWith_def toLowerCase_def lower_char_def)
  have "\<exists>r1. delivered r1 \<and>
           fst (serve_all (sample_db 1) ((sample_world, sample_request ''tok-1'') #
             [(sample_world, sample_request ''tok-1''), (sample_world, sample_request ''tok-1'')])) =
             r1 # replicate (length [(sample_world, sample_request ''tok-1''),
               (sample_world, sample_request ''tok-1'')]) print_limit_exceeded \<and>
           one_print_rest_rejected (fst (serve_all (sample_db 1)
             ((sample_world, sample_request ''tok-1'') #
             [(sample_world, sample_request ''tok-1''), (sample_world, sample_request ''tok-1'')]))) \<and>
           filter (\<lambda>r. session_token r = ''tok-1'')
             (document_access (snd (serve_all (sample_db 1)
               ((sample_world, sample_request ''tok-1'') #
             [(sample_world, sample_request ''tok-1''), (sample_world, sample_request ''tok-1'')])))) =
             [(sample_grant 1)\<lparr>remaining_prints := 0\<rparr>]"
    by (rule sequential_single_use [where a = "sample_grant 1"])
       (simp_all add: c, simp_all add: sample_defs)
  then show ?thesis
    using sample_delivered
    by (simp add: sample_run Let_def) (simp add: sample_defs handler_defs Let_def)
qed

section \<open>Overlapping requests\<close>

text \<open>
  Claim C1 asks that no execution of the handler raises a grant's stored counter or
  lowers it by more than one, and that a print is delivered only after the decrement
  has committed. The handler keeps this for an execution on its own, as shown above,
  and breaks it when executions overlap: its update writes the counter that its own
  query has read, less one, whatever is stored by then. Of three requests for the
  installation's grant with three prints left, the first runs its query, the second and
  the third run to their end and leave the counter at 1, and the update of the first
  then stores 2. All three are delivered the print.
\<close>

theorem stale_update_raises_counter:
  "document_access (fst (run_schedule [0, 1, 1, 2, 2] (sample_db 3)
      [Arrived sample_world (sample_request ''tok-1''),
       Arrived sample_world (sample_request ''tok-1''),
       Arrived sample_world (sample_request ''tok-1'')])) = [sample_grant 1] \<and>
   document_access (fst (run_schedule [0, 1, 1, 2, 2, 0] (sample_db 3)
      [Arrived sample_world (sample_request ''tok-1''),
       Arrived sample_world (sample_request ''tok-1''),
       Arrived sample_world (sample_request ''tok-1'')])) = [sample_grant 2] \<and>
   map delivered (replies (snd (run_schedule [0, 1, 1, 2, 2, 0] (sample_db 3)
      [Arrived sample_world (sample_request ''tok-1''),
       Arrived sample_world (sample_request ''tok-1''),
       Arrived sample_world (sample_request ''tok-1'')]))) = [True, True, True]"
  by (simp add: advance_def sample_defs handler_defs Let_def delivered_def pdf_response_def)

text \<open>
  Claim C2 asks that, of the requests that overlap on a grant with exactly one print
  left, exactly one is delivered the print, the counter ends at 0 and every other one
  gets the quota rejection. The handler checks the counter its access query has read
  and writes the counter in a later update that has no condition on the stored value.
  When two requests both run their query before either runs its update, both read 1:
  both are delivered the print, neither gets the quota rejection, and the counter ends
  at 0.
\<close>

theorem concurrent_requests_both_delivered:
  "map delivered (replies (snd (run_schedule [0, 1, 0, 1] (sample_db 1)
      [Arrived sample_world (sample_request ''tok-1''),
       Arrived sample_world (sample_request ''tok-1'')]))) = [True, True] \<and>
   \<not> one_print_rest_rejected (replies (snd (run_schedule [0, 1, 0, 1] (sample_db 1)
      [Arrived sample_world (sample_request ''tok-1''),
       Arrived sample_world (sample_request ''tok-1'')]))) \<and>
   document_access (fst (run_schedule [0, 1, 0, 1] (sample_db 1)
      [Arrived sample_world (sample_request ''tok-1''),
       Arrived sample_world (sample_request ''tok-1'')])) = [sample_grant 0]"
  by (simp add: advance_def sample_defs handler_defs Let_def delivered_def pdf_response_def
      one_print_rest_rejected_def)

section \<open>What the view box expression matches\<close>

lemma dquote_not_space: "\<not> is_space dquote"
  by (simp add: is_space_def dquote_def)

lemma equals_not_space: "\<not> is_space equals_sign"
  by (simp add: is_space_def equals_sign_def)

lemma dropWhile_spaces_then:
  assumes "list_all is_space ws" "\<not> is_space x"
  shows "dropWhile is_space (ws @ x # rest) = x # rest"
  using assms by (induction ws) simp_all

lemma match_here_complete:
  assumes "view_box_attribute s v"
  shows "match_here s = Some v"
proof -
  from assms obtain kw ws1 ws2 post where
    s: "s = kw @ ws1 @ equals_sign # ws2 @ dquote # v @ dquote # post" and
    kw: "map fold_case kw = js ''viewbox''" and
    ws: "list_all is_space ws1" "list_all is_space ws2" and
    v: "v \<noteq> []" "dquote \<notin> set v"
    unfolding view_box_attribute_def by blast
  have "length (map fold_case kw) = 7" unfolding kw by (simp add: js_def)
  then have len: "length kw = 7" by simp
  have tk: "takeWhile (\<lambda>x. x \<noteq> dquote) (v @ dquote # post) = v"
    using v(2) by (induction v) auto
  have dr: "dropWhile (\<lambda>x. x \<noteq> dquote) (v @ dquote # post) = dquote # post"
    using v(2) by (induction v) auto
  show ?thesis
    unfolding s
    using kw v(1) len tk dr
      dropWhile_spaces_then [OF ws(1) equals_not_space]
      dropWhile_spaces_then [OF ws(2) dquote_not_space]
    by (simp add: match_here_def Let_def)
qed

lemma match_here_sound:
  assumes "match_here s = Some v"
  shows "view_box_attribute s v"
proof -
  from assms have kw: "map fold_case (take 7 s) = js ''viewbox''"
    by (simp add: match_here_def split: if_splits)
  from assms kw obtain r1 where r1: "dropWhile is_space (drop 7 s) = equals_sign # r1"
    by (auto simp: match_here_def split: list.splits if_splits)
  from assms kw r1 obtain r2 where r2: "dropWhile is_space r1 = dquote # r2"
    by (auto simp: match_here_def split: list.splits if_splits)
  from assms kw r1 r2 have v: "v = takeWhile (\<lambda>x. x \<noteq> dquote) r2" "v \<noteq> []"
    and ne: "dropWhile (\<lambda>x. x \<noteq> dquote) r2 \<noteq> []"
    by (auto simp: match_here_def Let_def split: if_splits)
  from ne obtain q post where q: "dropWhile (\<lambda>x. x \<noteq> dquote) r2 = q # post"
    by (cases "dropWhile (\<lambda>x. x \<noteq> dquote) r2") auto
  have "q = dquote"
    using hd_dropWhile [of "\<lambda>x. x \<noteq> dquote" r2] ne q by auto
  with q have r2': "r2 = v @ dquote # post"
    using takeWhile_dropWhile_id [of "\<lambda>x. x \<noteq> dquote" r2] v(1) by simp
  have r1': "r1 = takeWhile is_space r1 @ dquote # r2"
    using takeWhile_dropWhile_id [of is_space r1] r2 by simp
  have d7: "drop 7 s = takeWhile is_space (drop 7 s) @ equals_sign # r1"
    using takeWhile_dropWhile_id [of is_space "drop 7 s"] r1 by simp
  have "s = take 7 s @ drop 7 s" by simp
  then have "s = take 7 s @ takeWhile is_space (drop 7 s) @ equals_sign #
                 takeWhile is_space r1 @ dquote # v @ dquote # post"
    using d7 r1' r2' by metis
  moreover have "list_all is_space (takeWhile is_space (drop 7 s))"
    "list_all is_space (takeWhile is_space r1)"
    by (auto simp: list_all_iff dest: set_takeWhileD)
  moreover have "dquote \<notin> set v"
    unfolding v(1) by (auto dest: set_takeWhileD)
  ultimately show ?thesis
    unfolding view_box_attribute_def using kw v(2) by blast
qed

lemma match_here_None_iff:
  "match_here s = None \<longleftrightarrow> (\<forall>u. \<not> view_box_attribute s u)"
proof
  assume n: "match_here s = None"
  show "\<forall>u. \<not> view_box_attribute s u"
  proof (intro allI notI)
    fix u assume "view_box_attribute s u"
    from match_here_complete [OF this] n show False by simp
  qed
next
  assume a: "\<forall>u. \<not> view_box_attribute s u"
  show "match_here s = None"
  proof (cases "match_here s")
    case None
    then show ?thesis .
  next
    case (Some v)
    from match_here_sound [OF this] a show ?thesis by blast
  qed
qed

lemma viewBoxMatch_leftmost:
  assumes "\<forall>k < length pre. match_here (drop k (pre @ rest)) = None"
  shows "viewBoxMatch (pre @ rest) = viewBoxMatch rest"
  using assms
proof (induction pre)
  case Nil
  then show ?case by simp
next
  case (Cons c pre)
  from Cons.prems have "match_here (drop 0 ((c # pre) @ rest)) = None" by blast
  then have h: "match_here (c # pre @ rest) = None" by simp
  have "\<forall>k < length pre. match_here (drop k (pre @ rest)) = None"
  proof (intro allI impI)
    fix k assume "k < length pre"
    then have "Suc k < length (c # pre)" by simp
    with Cons.prems have "match_here (drop (Suc k) ((c # pre) @ rest)) = None" by blast
    then show "match_here (drop k (pre @ rest)) = None" by simp
  qed
  with Cons.IH have "viewBoxMatch (pre @ rest) = viewBoxMatch rest" by simp
  with h show ?case by simp
qed

lemma viewBoxMatch_here:
  assumes "match_here s = Some v"
  shows "viewBoxMatch s = Some v"
proof (cases s)
  case Nil
  with assms show ?thesis by (simp add: match_here_def js_def)
next
  case (Cons c cs)
  with assms show ?thesis by simp
qed

lemma viewBoxMatch_Some:
  assumes "viewBoxMatch s = Some v"
  shows "\<exists>pre rest. s = pre @ rest \<and> match_here rest = Some v \<and>
           (\<forall>k < length pre. match_here (drop k s) = None)"
  using assms
proof (induction s)
  case Nil
  then show ?case by simp
next
  case (Cons c cs)
  show ?case
  proof (cases "match_here (c # cs)")
    case (Some u)
    with Cons.prems have "u = v" by simp
    with Some have "c # cs = [] @ (c # cs) \<and> match_here (c # cs) = Some v \<and>
      (\<forall>k < length ([] :: js_string). match_here (drop k (c # cs)) = None)"
      by simp
    then show ?thesis by blast
  next
    case None
    with Cons.prems have "viewBoxMatch cs = Some v" by simp
    from Cons.IH [OF this] obtain pre rest where
      p: "cs = pre @ rest" "match_here rest = Some v"
         "\<forall>k < length pre. match_here (drop k cs) = None"
      by blast
    have "\<forall>k < length (c # pre). match_here (drop k (c # cs)) = None"
    proof (intro allI impI)
      fix k assume k: "k < length (c # pre)"
      show "match_here (drop k (c # cs)) = None"
      proof (cases k)
        case 0
        with None show ?thesis by simp
      next
        case (Suc j)
        with k p(3) show ?thesis by simp
      qed
    qed
    with p(1,2) have "c # cs = (c # pre) @ rest \<and> match_here rest = Some v \<and>
      (\<forall>k < length (c # pre). match_here (drop k (c # cs)) = None)"
      by simp
    then show ?thesis by blast
  qed
qed

text \<open>The match of the expression in a source is the value of its first view box
  attribute.\<close>

lemma viewBoxMatch_iff: "viewBoxMatch svg = Some v \<longleftrightarrow> first_view_box svg v"
proof
  assume "viewBoxMatch svg = Some v"
  from viewBoxMatch_Some [OF this] obtain pre rest where
    p: "svg = pre @ rest" "match_here rest = Some v"
       "\<forall>k < length pre. match_here (drop k svg) = None"
    by blast
  from p(3) have "\<forall>k < length pre. \<forall>u. \<not> view_box_attribute (drop k svg) u"
    by (simp add: match_here_None_iff)
  with p(1) match_here_sound [OF p(2)] show "first_view_box svg v"
    unfolding first_view_box_def by blast
next
  assume "first_view_box svg v"
  then obtain pre rest where
    p: "svg = pre @ rest" "view_box_attribute rest v"
       "\<forall>k < length pre. \<forall>u. \<not> view_box_attribute (drop k svg) u"
    unfolding first_view_box_def by blast
  from p(3) have "\<forall>k < length pre. match_here (drop k (pre @ rest)) = None"
    unfolding p(1) by (simp add: match_here_None_iff)
  then have "viewBoxMatch (pre @ rest) = viewBoxMatch rest"
    by (rule viewBoxMatch_leftmost)
  with viewBoxMatch_here [OF match_here_complete [OF p(2)]] p(1)
  show "viewBoxMatch svg = Some v" by simp
qed

lemma first_view_box_unique:
  assumes "first_view_box svg v" "first_view_box svg v'"
  shows "v' = v"
  using assms by (simp add: viewBoxMatch_iff [symmetric])

section \<open>What trimming and splitting give\<close>















section \<open>The page size of a converted SVG\<close>











end
